theory Spec2Isabelle
  imports
    Main
    "HOL-Library.Char_ord"
    "HOL-Library.List_Lexorder"
    "HOL-Library.Multiset"
    "HOL-Library.Option_ord"
    "HOL-Library.Sublist"
begin

section \<open>The persistence schema\<close>

text \<open>
  The server part of the source declares two Sequelize models, \<open>Task\<close> and \<open>Tag\<close>,
  joined many-to-many through the table \<open>TaskTags\<close>. A row of \<open>Tasks\<close> carries the
  columns of \<open>Task.init\<close>: \<open>title\<close> is declared \<open>allowNull: false\<close>, so a stored
  title is a string; the other columns are nullable, \<open>None\<close> being SQL NULL. The
  columns \<open>createdAt\<close> and \<open>updatedAt\<close> hold wall-clock time, are never requested by
  the client and are left out. Strings are lists of characters.
\<close>

record task =
  task_id :: nat
  title :: string
  description :: "string option"
  due_date :: "string option"
  location :: "string option"
  status :: "string option"

text \<open>\<open>Tag.init\<close> declares only \<open>name\<close>; the integer primary key \<open>id\<close> is the one the
  ORM adds to a model that declares none.\<close>

record tag =
  tag_id :: nat
  name :: string

text \<open>
  The store: the three tables in insertion order, and for each of the two
  \<open>AUTOINCREMENT\<close> keys the largest key handed out so far.
\<close>

record store =
  task_rows :: "task list"
  tag_rows :: "tag list"
  TaskTags :: "(nat \<times> nat) list"
  task_seq :: nat
  tag_seq :: nat

text \<open>The database right after \<open>sequelize.sync({ force: true })\<close>.\<close>

definition empty_store :: store where
  "empty_store = \<lparr>task_rows = [], tag_rows = [], TaskTags = [], task_seq = 0, tag_seq = 0\<rparr>"

text \<open>An \<open>AUTOINCREMENT\<close> key is one more than the largest key the table has ever held.\<close>

definition next_key :: "nat \<Rightarrow> nat list \<Rightarrow> nat" where
  "next_key seq keys = Suc (fold max keys seq)"

text \<open>The constraints the schema declares: primary keys, the unique tag name, the
  composite key of the join table and its two foreign keys; and no key of a table is
  larger than the table's key counter.\<close>

definition store_ok :: "store \<Rightarrow> bool" where
  "store_ok s =
     (distinct (map task_id (task_rows s)) \<and>
      distinct (map tag_id (tag_rows s)) \<and>
      distinct (map name (tag_rows s)) \<and>
      distinct (TaskTags s) \<and>
      list_all (\<lambda>(i, g). i \<in> set (map task_id (task_rows s)) \<and> g \<in> set (map tag_id (tag_rows s)))
        (TaskTags s) \<and>
      list_all (\<lambda>r. task_id r \<le> task_seq s) (task_rows s) \<and>
      list_all (\<lambda>g. tag_id g \<le> tag_seq s) (tag_rows s))"

section \<open>Requests and responses\<close>

text \<open>
  The JSON body of a write request, as the handlers destructure it. The model covers the
  bodies in which every scalar field is a string or \<open>null\<close> and \<open>tags\<close>, when it is an
  array, is an array of strings. \<open>None\<close> is \<open>null\<close>. A missing title is \<open>None\<close> as
  well, a missing and a null title being rejected alike, and so is any missing field
  of a create, both being stored as NULL; an update that leaves out one of the other
  scalar keys is outside the model. \<open>req_tags\<close> is \<open>Some ns\<close> exactly when the test
  \<open>tags && Array.isArray(tags)\<close> passes.
\<close>

record body =
  req_title :: "string option"
  req_description :: "string option"
  req_due_date :: "string option"
  req_location :: "string option"
  req_status :: "string option"
  req_tags :: "string list option"

text \<open>What a handler sends: \<open>res.json(task)\<close>, \<open>res.json({ message })\<close>, or
  \<open>res.status(code).json({ error })\<close>.\<close>

datatype reply =
  Task_json task
| Message_json string
| Error_json nat string

section \<open>Model operations used by the handlers\<close>

text \<open>
  The column \<open>due_date\<close> has the type \<open>DATEONLY\<close>, whose values pass through the date
  library: \<open>fmt v\<close> stands for \<open>moment(v).format('YYYY-MM-DD')\<close>, a function of the
  library that is not part of the source and is taken as a parameter wherever a date is
  written. Setting the attribute on an instance sanitizes the value, which reformats
  every text but the empty one; writing the attribute to the database stringifies it,
  which reformats every text. NULL passes through both.
\<close>

definition DATEONLY_sanitize :: "(string \<Rightarrow> string) \<Rightarrow> string \<Rightarrow> string" where
  "DATEONLY_sanitize fmt v = (if v \<noteq> [] then fmt v else v)"

definition DATEONLY_stringify :: "(string \<Rightarrow> string) \<Rightarrow> string \<Rightarrow> string" where
  "DATEONLY_stringify fmt v = fmt v"

text \<open>\<open>Task.create({ title, description, due_date, location })\<close>: the NOT NULL check on
  \<open>title\<close> rejects the insert (the ORM throws); \<open>status\<close> takes its default. The result
  is the instance, which the handler sends back and whose due date is the sanitized
  one, and the store with the new row, whose due date is the one written.\<close>

definition Task_create :: "(string \<Rightarrow> string) \<Rightarrow> body \<Rightarrow> store \<Rightarrow> (task \<times> store) option" where
  "Task_create fmt b s =
     (case req_title b of
        None \<Rightarrow> None
      | Some t \<Rightarrow>
          let inst = \<lparr>task_id = next_key (task_seq s) (map task_id (task_rows s)),
                      title = t,
                      description = req_description b,
                      due_date = map_option (DATEONLY_sanitize fmt) (req_due_date b),
                      location = req_location b,
                      status = Some ''pending''\<rparr>;
              written = inst\<lparr>due_date := map_option (DATEONLY_stringify fmt) (due_date inst)\<rparr>
          in Some (inst, s\<lparr>task_rows := task_rows s @ [written], task_seq := task_id inst\<rparr>))"

definition Task_findByPk :: "nat \<Rightarrow> store \<Rightarrow> task option" where
  "Task_findByPk i s = find (\<lambda>r. task_id r = i) (task_rows s)"

text \<open>\<open>task.set({ title, description, status, due_date, location }); await task.save()\<close>:
  the same NOT NULL check. \<open>set\<close> sanitizes the due date; \<open>save\<close> writes the attributes
  that changed, and the due date counts as changed when the sanitized value differs
  from the one loaded. The result is the instance after \<open>set\<close>, which the handler sends
  back, and the store with the row of the task's key rewritten.\<close>

definition task_set_save ::
  "(string \<Rightarrow> string) \<Rightarrow> body \<Rightarrow> task \<Rightarrow> store \<Rightarrow> (task \<times> store) option" where
  "task_set_save fmt b t s =
     (case req_title b of
        None \<Rightarrow> None
      | Some ttl \<Rightarrow>
          let inst = t\<lparr>title := ttl,
                       description := req_description b,
                       status := req_status b,
                       due_date := map_option (DATEONLY_sanitize fmt) (req_due_date b),
                       location := req_location b\<rparr>;
              written = inst\<lparr>due_date :=
                          (if due_date inst = due_date t then due_date t
                           else map_option (DATEONLY_stringify fmt) (due_date inst))\<rparr>
          in Some (inst,
               s\<lparr>task_rows := map (\<lambda>r. if task_id r = task_id t then written else r) (task_rows s)\<rparr>))"

text \<open>\<open>Task.destroy({ where: { id } })\<close>; the join rows of the task go with it through
  the foreign key's \<open>ON DELETE CASCADE\<close>.\<close>

definition Task_destroy :: "nat \<Rightarrow> store \<Rightarrow> store" where
  "Task_destroy i s =
     s\<lparr>task_rows := filter (\<lambda>r. task_id r \<noteq> i) (task_rows s),
       TaskTags := filter (\<lambda>(a, g). a \<noteq> i) (TaskTags s)\<rparr>"

definition Tag_findOrCreate :: "string \<Rightarrow> store \<Rightarrow> tag \<times> store" where
  "Tag_findOrCreate n s =
     (case find (\<lambda>g. name g = n) (tag_rows s) of
        Some g \<Rightarrow> (g, s)
      | None \<Rightarrow>
          let g = \<lparr>tag_id = next_key (tag_seq s) (map tag_id (tag_rows s)), name = n\<rparr>
          in (g, s\<lparr>tag_rows := tag_rows s @ [g], tag_seq := tag_id g\<rparr>))"

text \<open>\<open>task.addTag(tag)\<close> inserts the join row unless the pair is already associated.\<close>

definition addTag :: "nat \<Rightarrow> tag \<Rightarrow> store \<Rightarrow> store" where
  "addTag i g s =
     (if (i, tag_id g) \<in> set (TaskTags s) then s
      else s\<lparr>TaskTags := TaskTags s @ [(i, tag_id g)]\<rparr>)"

text \<open>\<open>task.setTags([])\<close> removes every join row of the task.\<close>

definition setTags_none :: "nat \<Rightarrow> store \<Rightarrow> store" where
  "setTags_none i s = s\<lparr>TaskTags := filter (\<lambda>(a, g). a \<noteq> i) (TaskTags s)\<rparr>"

text \<open>The loop \<open>for (const tagName of tags) { findOrCreate; addTag }\<close> of both handlers.\<close>

fun attach_tags :: "nat \<Rightarrow> string list \<Rightarrow> store \<Rightarrow> store" where
  "attach_tags i [] s = s"
| "attach_tags i (n # ns) s =
     (case Tag_findOrCreate n s of (g, s1) \<Rightarrow> attach_tags i ns (addTag i g s1))"

section \<open>The command handlers\<close>

text \<open>\<open>app.post('/tasks')\<close>. Whatever is thrown inside \<open>try\<close> ends in the 500 reply. The
  first argument of this and of the next handler is the date library's formatting.\<close>

definition post_tasks :: "(string \<Rightarrow> string) \<Rightarrow> body \<Rightarrow> store \<Rightarrow> reply \<times> store" where
  "post_tasks fmt b s =
     (case Task_create fmt b s of
        None \<Rightarrow> (Error_json 500 ''Create failed'', s)
      | Some (t, s1) \<Rightarrow>
          (Task_json t,
           case req_tags b of
             Some ns \<Rightarrow> attach_tags (task_id t) ns s1
           | None \<Rightarrow> s1))"

text \<open>\<open>app.put('/tasks/:id')\<close>; \<open>i\<close> is the number the path parameter denotes.\<close>

definition put_tasks :: "(string \<Rightarrow> string) \<Rightarrow> nat \<Rightarrow> body \<Rightarrow> store \<Rightarrow> reply \<times> store" where
  "put_tasks fmt i b s =
     (case Task_findByPk i s of
        None \<Rightarrow> (Error_json 404 ''Not found'', s)
      | Some t \<Rightarrow>
          (case task_set_save fmt b t s of
             None \<Rightarrow> (Error_json 500 ''Update failed'', s)
           | Some (t1, s1) \<Rightarrow>
               (Task_json t1,
                case req_tags b of
                  Some ns \<Rightarrow> attach_tags (task_id t1) ns (setTags_none (task_id t1) s1)
                | None \<Rightarrow> s1)))"

text \<open>\<open>app.delete('/tasks/:id')\<close>.\<close>

definition delete_tasks :: "nat \<Rightarrow> store \<Rightarrow> reply \<times> store" where
  "delete_tasks i s = (Message_json ''Deleted'', Task_destroy i s)"

section \<open>The query resolver\<close>

text \<open>
  SQLite's \<open>LIKE\<close>: in the pattern \<open>%\<close> stands for any run of characters and \<open>_\<close> for
  any single character; every other character matches itself, the letters A to Z and
  a to z regardless of case. No escape character is set. The engine's bound on the
  length of a pattern is not modelled.
\<close>

definition ascii_lower :: "char \<Rightarrow> char" where
  "ascii_lower c =
     (if CHR ''A'' \<le> c \<and> c \<le> CHR ''Z'' then char_of (of_char c + (32::nat)) else c)"

fun like :: "string \<Rightarrow> string \<Rightarrow> bool" where
  "like [] [] = True"
| "like [] (c # cs) = False"
| "like (p # ps) [] = (p = CHR ''%'' \<and> like ps [])"
| "like (p # ps) (c # cs) =
     (if p = CHR ''%'' then like ps (c # cs) \<or> like (p # ps) cs
      else (p = CHR ''_'' \<or> ascii_lower p = ascii_lower c) \<and> like ps cs)"

text \<open>A column compared with \<open>LIKE\<close>: NULL never matches.\<close>

definition col_like :: "string \<Rightarrow> string option \<Rightarrow> bool" where
  "col_like pat v = (case v of None \<Rightarrow> False | Some x \<Rightarrow> like pat x)"

text \<open>JavaScript's truth value of a nullable string argument (\<open>if (q)\<close>, \<open>if (tag)\<close>).\<close>

definition truthy :: "string option \<Rightarrow> bool" where
  "truthy a = (case a of None \<Rightarrow> False | Some x \<Rightarrow> x \<noteq> [])"

text \<open>\<open>whereClause\<close>: empty, or the \<open>Op.or\<close> of three \<open>Op.like\<close> tests whose pattern is
  the term between two percent signs. \<open>None\<close> is the empty clause.\<close>

datatype column = Title | Description | Location

definition whereClause :: "string option \<Rightarrow> (column \<times> string) list option" where
  "whereClause q =
     (case q of
        None \<Rightarrow> None
      | Some x \<Rightarrow>
          if truthy q then
            Some [(Title, ''%'' @ x @ ''%''),
                  (Description, ''%'' @ x @ ''%''),
                  (Location, ''%'' @ x @ ''%'')]
          else None)"

text \<open>\<open>includeClause[0].where\<close>: absent, or \<open>{ name: tag }\<close>.\<close>

definition includeClause :: "string option \<Rightarrow> string option" where
  "includeClause tg = (if truthy tg then tg else None)"

definition column_of :: "column \<Rightarrow> task \<Rightarrow> string option" where
  "column_of c t = (case c of Title \<Rightarrow> Some (title t) | Description \<Rightarrow> description t
                    | Location \<Rightarrow> location t)"

definition where_holds :: "(column \<times> string) list option \<Rightarrow> task \<Rightarrow> bool" where
  "where_holds w t =
     (case w of None \<Rightarrow> True
      | Some conds \<Rightarrow> list_ex (\<lambda>(c, pat). col_like pat (column_of c t)) conds)"

text \<open>The tags joined to the task with key \<open>i\<close> through \<open>TaskTags\<close>, restricted by the include's
  \<open>where\<close> when it has one.\<close>

definition joined_tags :: "string option \<Rightarrow> store \<Rightarrow> nat \<Rightarrow> tag list" where
  "joined_tags inc s i =
     filter (\<lambda>g. (i, tag_id g) \<in> set (TaskTags s) \<and>
                 (case inc of None \<Rightarrow> True | Some n \<Rightarrow> name g = n))
       (tag_rows s)"

text \<open>A \<open>Task\<close> instance as the resolvers see it: the row, and the property \<open>Tags\<close>,
  which is defined exactly when the instance was loaded with the include.\<close>

record task_instance =
  row :: task
  Tags :: "string list option"

text \<open>
  \<open>Task.findAll({ where, include, order: [['due_date', 'ASC']] })\<close>: one SQL statement.
  An include without \<open>where\<close> is a left outer join; an include with \<open>where\<close> is an
  inner join whose condition is part of the join, so a task is kept only if a joined
  tag satisfies it, and only the joined tags are loaded. NULL sorts first and text
  compares bytewise. SQL leaves open the order of tasks with equal due dates and the
  order of the tags of a task; here both follow the order of the tables. The second
  component counts the statements sent to the store.
\<close>

definition Task_findAll ::
  "(column \<times> string) list option \<Rightarrow> string option \<Rightarrow> store \<Rightarrow> nat \<Rightarrow> task_instance list \<times> nat" where
  "Task_findAll w inc s k =
     (map (\<lambda>t. \<lparr>row = t, Tags = Some (map name (joined_tags inc s (task_id t)))\<rparr>)
        (sort_key due_date
           (filter (\<lambda>t. where_holds w t \<and> (inc = None \<or> joined_tags inc s (task_id t) \<noteq> []))
              (task_rows s))),
      Suc k)"

text \<open>\<open>parent.getTags()\<close>: one more statement.\<close>

definition getTags :: "store \<Rightarrow> task \<Rightarrow> nat \<Rightarrow> string list \<times> nat" where
  "getTags s t k = (map name (joined_tags None s (task_id t)), Suc k)"

text \<open>\<open>RootQuery.tasks.resolve\<close>.\<close>

definition tasks_resolve ::
  "string option \<Rightarrow> string option \<Rightarrow> store \<Rightarrow> nat \<Rightarrow> task_instance list \<times> nat" where
  "tasks_resolve q tg s k = Task_findAll (whereClause q) (includeClause tg) s k"

text \<open>The \<open>tags\<close> field of \<open>TaskType\<close>: \<open>parent.Tags || parent.getTags()\<close>. An array,
  empty or not, is truthy.\<close>

definition tags_resolve :: "store \<Rightarrow> task_instance \<Rightarrow> nat \<Rightarrow> string list \<times> nat" where
  "tags_resolve s parent k =
     (case Tags parent of
        Some ns \<Rightarrow> (ns, k)
      | None \<Rightarrow> getTags s (row parent) k)"

text \<open>The executor resolves the \<open>tags\<close> field of every task of the list.\<close>

fun resolve_fields ::
  "store \<Rightarrow> task_instance list \<Rightarrow> nat \<Rightarrow> (task \<times> string list) list \<times> nat" where
  "resolve_fields s [] k = ([], k)"
| "resolve_fields s (p # ps) k =
     (case tags_resolve s p k of
        (ns, k1) \<Rightarrow>
          (case resolve_fields s ps k1 of (rest, k2) \<Rightarrow> ((row p, ns) # rest, k2)))"

text \<open>The query \<open>tasks(q, tag) { id title due_date description location status
  tags { name } }\<close>, started with the statement counter at \<open>k\<close>.\<close>

definition run_query ::
  "string option \<Rightarrow> string option \<Rightarrow> store \<Rightarrow> nat \<Rightarrow> (task \<times> string list) list \<times> nat" where
  "run_query q tg s k =
     (case tasks_resolve q tg s k of (ps, k1) \<Rightarrow> resolve_fields s ps k1)"

definition query :: "string option \<Rightarrow> string option \<Rightarrow> store \<Rightarrow> (task \<times> string list) list" where
  "query q tg s = fst (run_query q tg s 0)"


section \<open>The client's status toggle\<close>

text \<open>
  \<open>toggleStatus\<close> of the client takes a task as the last query showed it and sends it
  back whole, with the status flipped and \<open>task.tags.map(t => t.name)\<close> as the tag list.
\<close>

definition toggleStatus ::
  "(string \<Rightarrow> string) \<Rightarrow> task \<times> string list \<Rightarrow> store \<Rightarrow> reply \<times> store" where
  "toggleStatus fmt shown s =
     (case shown of
        (t, ns) \<Rightarrow>
          put_tasks fmt (task_id t)
            \<lparr>req_title = Some (title t),
             req_description = description t,
             req_due_date = due_date t,
             req_location = location t,
             req_status = Some (if status t = Some ''completed'' then ''pending'' else ''completed''),
             req_tags = Some ns\<rparr>
            s)"

section \<open>Sequences of commands\<close>

datatype command = Create body | Update nat body | Delete nat

fun run_command :: "(string \<Rightarrow> string) \<Rightarrow> command \<Rightarrow> store \<Rightarrow> store" where
  "run_command fmt (Create b) s = snd (post_tasks fmt b s)"
| "run_command fmt (Update i b) s = snd (put_tasks fmt i b s)"
| "run_command fmt (Delete i) s = snd (delete_tasks i s)"

fun run_commands :: "(string \<Rightarrow> string) \<Rightarrow> command list \<Rightarrow> store \<Rightarrow> store" where
  "run_commands fmt [] s = s"
| "run_commands fmt (c # cs) s = run_commands fmt cs (run_command fmt c s)"

section \<open>The vocabulary of the specification\<close>

text \<open>The full list of the names of the tags associated with the task with key \<open>i\<close>.\<close>

definition tag_names :: "store \<Rightarrow> nat \<Rightarrow> string list" where
  "tag_names s i = map name (joined_tags None s i)"

text \<open>\<open>q\<close> is a case-insensitive substring of \<open>x\<close>: a contiguous part of \<open>x\<close> equals \<open>q\<close>
  up to the case of the letters A to Z.\<close>

definition ci_substring :: "string \<Rightarrow> string \<Rightarrow> bool" where
  "ci_substring q x = sublist (map ascii_lower q) (map ascii_lower x)"

text \<open>\<open>q\<close> is a case-insensitive substring of the title, the description or the location.\<close>

definition text_matches :: "string \<Rightarrow> task \<Rightarrow> bool" where
  "text_matches q t =
     (ci_substring q (title t) \<or>
      (case description t of None \<Rightarrow> False | Some d \<Rightarrow> ci_substring q d) \<or>
      (case location t of None \<Rightarrow> False | Some l \<Rightarrow> ci_substring q l))"

text \<open>A term with neither of the two characters that \<open>LIKE\<close> reads as wildcards.\<close>

definition wildcard_free :: "string \<Rightarrow> bool" where
  "wildcard_free q = (CHR ''%'' \<notin> set q \<and> CHR ''_'' \<notin> set q)"

text \<open>The free-text constraint of a query: none for a missing or empty term.\<close>

definition text_constraint :: "string option \<Rightarrow> task \<Rightarrow> bool" where
  "text_constraint q t = where_holds (whereClause q) t"

section \<open>The specification's concrete scenario\<close>

text \<open>The create request of the scenario, the task it makes in an empty database, and
  the database it leaves.\<close>

definition milk_body :: body where
  "milk_body =
     \<lparr>req_title = Some ''Buy milk'', req_description = None, req_due_date = None,
      req_location = None, req_status = None, req_tags = Some [''shopping'', ''errand'']\<rparr>"

definition milk_task :: task where
  "milk_task =
     \<lparr>task_id = 1, title = ''Buy milk'', description = None, due_date = None,
      location = None, status = Some ''pending''\<rparr>"

definition milk_store :: store where
  "milk_store =
     \<lparr>task_rows = [milk_task],
      tag_rows = [\<lparr>tag_id = 1, name = ''shopping''\<rparr>, \<lparr>tag_id = 2, name = ''errand''\<rparr>],
      TaskTags = [(1, 1), (1, 2)], task_seq = 1, tag_seq = 2\<rparr>"

text \<open>Three create requests without tags, the first due on the 22nd, the second with no
  due date, the third due on the 21st, and the database they leave when the date
  library writes both dates as they are given.\<close>

definition dated_body :: "string option \<Rightarrow> body" where
  "dated_body d =
     \<lparr>req_title = Some ''Run'', req_description = None, req_due_date = d,
      req_location = None, req_status = None, req_tags = None\<rparr>"

definition dated_task :: "nat \<Rightarrow> string option \<Rightarrow> task" where
  "dated_task i d =
     \<lparr>task_id = i, title = ''Run'', description = None, due_date = d,
      location = None, status = Some ''pending''\<rparr>"

definition dated_store :: store where
  "dated_store =
     \<lparr>task_rows =
        [dated_task 1 (Some ''2026-01-22''), dated_task 2 None, dated_task 3 (Some ''2026-01-21'')],
      tag_rows = [], TaskTags = [], task_seq = 3, tag_seq = 0\<rparr>"

section \<open>Basic facts\<close>

subsection \<open>Fresh keys\<close>

lemma next_key_fresh: "x \<in> set keys \<Longrightarrow> x < next_key seq keys"
proof -
  have "\<And>a. x \<in> set keys \<Longrightarrow> x \<le> fold max keys a \<and> a \<le> fold max keys a"
  proof (induction keys)
    case Nil
    then show ?case by simp
  next
    case (Cons y ys)
    have mono: "\<And>b. b \<le> fold max ys b"
      by (induction ys) (auto intro: order_trans [OF max.cobounded2])
    show ?case
    proof (cases "x = y")
      case True
      then show ?thesis
        using mono [of "max y a"] by auto
    next
      case False
      then show ?thesis
        using Cons.IH [of "max y a"] Cons.prems by auto
    qed
  qed
  then show "x \<in> set keys \<Longrightarrow> x < next_key seq keys"
    by (auto simp: next_key_def less_Suc_eq_le)
qed

subsection \<open>The result of a query\<close>

text \<open>Every instance that \<open>findAll\<close> returns has its tags loaded, so the field resolver
  never fetches, and the query is the sorted, filtered table with the joined names.\<close>

lemma resolve_fields_eager:
  "list_all (\<lambda>p. Tags p \<noteq> None) ps \<Longrightarrow>
   resolve_fields s ps k = (map (\<lambda>p. (row p, the (Tags p))) ps, k)"
  by (induction ps arbitrary: k) (auto simp: tags_resolve_def)

lemma run_query_eq:
  "run_query q tg s k =
     (map (\<lambda>t. (t, map name (joined_tags (includeClause tg) s (task_id t))))
        (sort_key due_date
           (filter (\<lambda>t. where_holds (whereClause q) t \<and>
                        (includeClause tg = None \<or> joined_tags (includeClause tg) s (task_id t) \<noteq> []))
              (task_rows s))),
      Suc k)"
  by (simp add: run_query_def tasks_resolve_def Task_findAll_def resolve_fields_eager
      list_all_iff o_def)

lemma query_eq:
  "query q tg s =
     map (\<lambda>t. (t, map name (joined_tags (includeClause tg) s (task_id t))))
        (sort_key due_date
           (filter (\<lambda>t. where_holds (whereClause q) t \<and>
                        (includeClause tg = None \<or> joined_tags (includeClause tg) s (task_id t) \<noteq> []))
              (task_rows s)))"
  by (simp add: query_def run_query_eq)

lemma query_rows:
  "map fst (query q tg s) =
     sort_key due_date
       (filter (\<lambda>t. where_holds (whereClause q) t \<and>
                    (includeClause tg = None \<or> joined_tags (includeClause tg) s (task_id t) \<noteq> []))
          (task_rows s))"
  by (simp add: query_eq o_def)

subsection \<open>Patterns made of a plain term between percent signs\<close>

lemma like_percent_only: "like ''%'' x"
  by (induction x) simp_all

lemma like_percent_cons:
  "like (CHR ''%'' # ps) x \<longleftrightarrow> (\<exists>u v. x = u @ v \<and> like ps v)"
proof (induction x)
  case Nil
  then show ?case by simp
next
  case (Cons c cs)
  have "like (CHR ''%'' # ps) (c # cs) \<longleftrightarrow> like ps (c # cs) \<or> like (CHR ''%'' # ps) cs"
    by simp
  also have "\<dots> \<longleftrightarrow> like ps (c # cs) \<or> (\<exists>u v. cs = u @ v \<and> like ps v)"
    using Cons.IH by simp
  also have "\<dots> \<longleftrightarrow> (\<exists>u v. c # cs = u @ v \<and> like ps v)"
    by (auto simp: Cons_eq_append_conv)
  finally show ?case .
qed

lemma like_plain_prefix:
  "wildcard_free q \<Longrightarrow>
   like (q @ ''%'') x \<longleftrightarrow> prefix (map ascii_lower q) (map ascii_lower x)"
proof (induction q arbitrary: x)
  case Nil
  then show ?case by (simp add: like_percent_only)
next
  case (Cons p ps)
  then have wf: "wildcard_free ps" and p: "p \<noteq> CHR ''%''" "p \<noteq> CHR ''_''"
    by (auto simp: wildcard_free_def)
  show ?case
  proof (cases x)
    case Nil
    then show ?thesis using p by simp
  next
    case (Cons c cs)
    then show ?thesis
      using p Cons.IH [OF wf, of cs] by auto
  qed
qed

lemma like_substring:
  assumes "wildcard_free q"
  shows "like (''%'' @ q @ ''%'') x \<longleftrightarrow> ci_substring q x"
proof -
  have "like (''%'' @ q @ ''%'') x \<longleftrightarrow>
        (\<exists>u v. x = u @ v \<and> prefix (map ascii_lower q) (map ascii_lower v))"
    using like_percent_cons [of "q @ ''%''" x] like_plain_prefix [OF assms] by simp
  also have "\<dots> \<longleftrightarrow> (\<exists>w. suffix w (map ascii_lower x) \<and> prefix (map ascii_lower q) w)"
  proof
    assume "\<exists>u v. x = u @ v \<and> prefix (map ascii_lower q) (map ascii_lower v)"
    then obtain u v where "x = u @ v" "prefix (map ascii_lower q) (map ascii_lower v)"
      by blast
    then have "suffix (map ascii_lower v) (map ascii_lower x)"
      by (simp add: suffix_def)
    then show "\<exists>w. suffix w (map ascii_lower x) \<and> prefix (map ascii_lower q) w"
      using \<open>prefix (map ascii_lower q) (map ascii_lower v)\<close> by blast
  next
    assume "\<exists>w. suffix w (map ascii_lower x) \<and> prefix (map ascii_lower q) w"
    then obtain w z where w: "map ascii_lower x = z @ w" "prefix (map ascii_lower q) w"
      by (auto simp: suffix_def)
    then obtain u v where "x = u @ v" "map ascii_lower v = w"
      by (auto simp: map_eq_append_conv)
    then show "\<exists>u v. x = u @ v \<and> prefix (map ascii_lower q) (map ascii_lower v)"
      using w by blast
  qed
  also have "\<dots> \<longleftrightarrow> ci_substring q x"
    by (simp add: ci_substring_def sublist_altdef')
  finally show ?thesis .
qed

lemma where_text_matches:
  assumes "wildcard_free q"
  shows "where_holds (whereClause (Some q)) t = text_matches q t"
proof (cases "q = []")
  case True
  then show ?thesis
    by (simp add: where_holds_def whereClause_def truthy_def text_matches_def ci_substring_def)
next
  case False
  then show ?thesis
    using like_substring [OF assms]
    by (simp add: where_holds_def whereClause_def truthy_def text_matches_def col_like_def
        column_of_def split: option.splits)
qed

subsection \<open>The commands keep the schema's constraints\<close>

lemma store_ok_iff:
  "store_ok s \<longleftrightarrow>
     distinct (map task_id (task_rows s)) \<and>
     distinct (map tag_id (tag_rows s)) \<and>
     distinct (map name (tag_rows s)) \<and>
     distinct (TaskTags s) \<and>
     (\<forall>(i, g) \<in> set (TaskTags s). i \<in> task_id ` set (task_rows s) \<and> g \<in> tag_id ` set (tag_rows s)) \<and>
     (\<forall>r \<in> set (task_rows s). task_id r \<le> task_seq s) \<and>
     (\<forall>g \<in> set (tag_rows s). tag_id g \<le> tag_seq s)"
  by (simp add: store_ok_def list_all_iff)

lemma next_key_gt_seq: "seq < next_key seq keys"
proof -
  have "\<And>a. a \<le> fold max keys a"
    by (induction keys) (auto intro: order_trans [OF max.cobounded2])
  then show ?thesis
    by (simp add: next_key_def less_Suc_eq_le)
qed

lemma find_name_None: "find (\<lambda>g. name g = n) gs = None \<Longrightarrow> n \<notin> name ` set gs"
  by (auto simp: find_None_iff)

lemma find_Some_mem: "find P xs = Some x \<Longrightarrow> x \<in> set xs \<and> P x"
  by (auto simp: find_Some_iff)

lemma findOrCreate_cases:
  "(\<exists>g \<in> set (tag_rows s). name g = n \<and> Tag_findOrCreate n s = (g, s)) \<or>
   (n \<notin> name ` set (tag_rows s) \<and>
    Tag_findOrCreate n s =
      (\<lparr>tag_id = next_key (tag_seq s) (map tag_id (tag_rows s)), name = n\<rparr>,
       s\<lparr>tag_rows := tag_rows s @ [\<lparr>tag_id = next_key (tag_seq s) (map tag_id (tag_rows s)), name = n\<rparr>],
         tag_seq := next_key (tag_seq s) (map tag_id (tag_rows s))\<rparr>))"
proof (cases "find (\<lambda>g. name g = n) (tag_rows s)")
  case None
  then show ?thesis
    by (simp add: Tag_findOrCreate_def Let_def find_name_None)
next
  case (Some g)
  then show ?thesis
    using find_Some_mem [OF Some] by (auto simp: Tag_findOrCreate_def)
qed

lemma findOrCreate_ok:
  assumes ok: "store_ok s" and foc: "Tag_findOrCreate n s = (g, s1)"
  shows "store_ok s1 \<and> g \<in> set (tag_rows s1) \<and> name g = n \<and>
         task_rows s1 = task_rows s \<and> TaskTags s1 = TaskTags s \<and> task_seq s1 = task_seq s \<and>
         tag_names s1 i = tag_names s i"
proof -
  define K where "K = next_key (tag_seq s) (map tag_id (tag_rows s))"
  consider (found) "g \<in> set (tag_rows s)" "name g = n" "s1 = s"
    | (created) "n \<notin> name ` set (tag_rows s)" "g = \<lparr>tag_id = K, name = n\<rparr>"
        "s1 = s\<lparr>tag_rows := tag_rows s @ [g], tag_seq := K\<rparr>"
    using findOrCreate_cases [of s n] foc by (auto simp: K_def)
  then show ?thesis
  proof cases
    case found
    then show ?thesis using ok by simp
  next
    case created
    have fresh: "\<forall>x \<in> set (tag_rows s). tag_id x < K"
      using next_key_fresh [of _ "map tag_id (tag_rows s)" "tag_seq s"] by (auto simp: K_def)
    have gt: "tag_seq s < K"
      by (simp add: K_def next_key_gt_seq)
    have notin: "\<forall>a. (a, K) \<notin> set (TaskTags s)"
      using ok fresh by (fastforce simp: store_ok_iff)
    have "store_ok s1"
      using ok fresh gt created by (fastforce simp: store_ok_iff)
    then show ?thesis
      using created notin by (auto simp: tag_names_def joined_tags_def)
  qed
qed

lemma set_tag_names:
  "set (tag_names s i) = {name g |g. g \<in> set (tag_rows s) \<and> (i, tag_id g) \<in> set (TaskTags s)}"
  by (auto simp: tag_names_def joined_tags_def)

lemma tag_names_distinct: "store_ok s \<Longrightarrow> distinct (tag_names s i)"
  by (simp add: store_ok_iff tag_names_def joined_tags_def distinct_map_filter)

lemma addTag_ok:
  assumes ok: "store_ok s" and i: "i \<in> task_id ` set (task_rows s)" and g: "g \<in> set (tag_rows s)"
  shows "store_ok (addTag i g s) \<and> task_rows (addTag i g s) = task_rows s \<and>
         tag_rows (addTag i g s) = tag_rows s \<and> task_seq (addTag i g s) = task_seq s \<and>
         set (tag_names (addTag i g s) i) = insert (name g) (set (tag_names s i)) \<and>
         (\<forall>j. j \<noteq> i \<longrightarrow> tag_names (addTag i g s) j = tag_names s j)"
proof -
  have same: "\<And>x. x \<in> set (tag_rows s) \<Longrightarrow> tag_id x = tag_id g \<Longrightarrow> x = g"
    using ok g by (auto simp: store_ok_iff distinct_map inj_on_def)
  have "store_ok (addTag i g s)"
    using ok i g by (auto simp: store_ok_iff addTag_def)
  moreover have "set (tag_names (addTag i g s) i) = insert (name g) (set (tag_names s i))"
    using g same by (auto simp: set_tag_names addTag_def)
  moreover have "\<forall>j. j \<noteq> i \<longrightarrow> tag_names (addTag i g s) j = tag_names s j"
    by (auto simp: tag_names_def joined_tags_def addTag_def intro: filter_cong)
  ultimately show ?thesis
    by (simp add: addTag_def)
qed

lemma attach_tags_ok:
  "store_ok s \<Longrightarrow> i \<in> task_id ` set (task_rows s) \<Longrightarrow>
   store_ok (attach_tags i ns s) \<and> task_rows (attach_tags i ns s) = task_rows s \<and>
   task_seq (attach_tags i ns s) = task_seq s \<and>
   set (tag_names (attach_tags i ns s) i) = set (tag_names s i) \<union> set ns \<and>
   (\<forall>j. j \<noteq> i \<longrightarrow> tag_names (attach_tags i ns s) j = tag_names s j)"
proof (induction ns arbitrary: s)
  case Nil
  then show ?case by simp
next
  case (Cons n ns)
  obtain g s1 where foc: "Tag_findOrCreate n s = (g, s1)"
    by (cases "Tag_findOrCreate n s")
  note f = findOrCreate_ok [OF Cons.prems(1) foc]
  have i1: "i \<in> task_id ` set (task_rows s1)"
    using f Cons.prems(2) by simp
  have g1: "g \<in> set (tag_rows s1)"
    using f by simp
  note a = addTag_ok [OF conjunct1 [OF f] i1 g1]
  have i2: "i \<in> task_id ` set (task_rows (addTag i g s1))"
    using a i1 by simp
  note ih = Cons.IH [OF conjunct1 [OF a] i2]
  have names: "\<And>j. tag_names s1 j = tag_names s j"
    using findOrCreate_ok [OF Cons.prems(1) foc] by simp
  show ?case
    using ih a f names by (auto simp: foc)
qed

lemma findByPk_Some: "Task_findByPk i s = Some t \<Longrightarrow> t \<in> set (task_rows s) \<and> task_id t = i"
  by (auto simp: Task_findByPk_def find_Some_iff)

lemma findByPk_None: "Task_findByPk i s = None \<longleftrightarrow> i \<notin> task_id ` set (task_rows s)"
  by (auto simp: Task_findByPk_def find_None_iff)

lemma setTags_none_ok:
  "store_ok s \<Longrightarrow> store_ok (setTags_none i s) \<and> task_rows (setTags_none i s) = task_rows s \<and>
     task_seq (setTags_none i s) = task_seq s \<and>
     tag_names (setTags_none i s) i = [] \<and>
     (\<forall>j. j \<noteq> i \<longrightarrow> tag_names (setTags_none i s) j = tag_names s j)"
  by (auto simp: store_ok_iff setTags_none_def tag_names_def joined_tags_def intro: filter_cong)

lemma task_set_save_ok:
  assumes ok: "store_ok s" and t: "t \<in> set (task_rows s)" and sv: "task_set_save fmt b t s = Some (t1, s1)"
  shows "store_ok s1 \<and> task_id t1 = task_id t \<and> map task_id (task_rows s1) = map task_id (task_rows s) \<and>
         task_seq s1 = task_seq s \<and> tag_seq s1 = tag_seq s \<and> tag_rows s1 = tag_rows s \<and>
         TaskTags s1 = TaskTags s"
proof -
  obtain ttl where ttl: "req_title b = Some ttl"
    using sv by (auto simp: task_set_save_def split: option.splits)
  have ids: "map task_id (task_rows s1) = map task_id (task_rows s)" and id1: "task_id t1 = task_id t"
    and rest: "task_seq s1 = task_seq s" "tag_seq s1 = tag_seq s" "tag_rows s1 = tag_rows s"
      "TaskTags s1 = TaskTags s"
    using sv ttl by (auto simp: task_set_save_def Let_def)
  have "set (map task_id (task_rows s1)) = set (map task_id (task_rows s))"
    using ids by simp
  then have img: "task_id ` set (task_rows s1) = task_id ` set (task_rows s)"
    by simp
  have le: "\<forall>r \<in> set (task_rows s1). task_id r \<le> task_seq s1"
    using ok sv ttl t by (auto simp: store_ok_iff task_set_save_def Let_def)
  have "store_ok s1"
    using ok ids rest le unfolding store_ok_iff img by simp
  then show ?thesis
    using ids id1 rest by simp
qed

lemma put_tasks_ok: "store_ok s \<Longrightarrow> store_ok (snd (put_tasks fmt i b s))"
proof -
  assume ok: "store_ok s"
  show ?thesis
  proof (cases "Task_findByPk i s")
    case None
    then show ?thesis using ok by (simp add: put_tasks_def)
  next
    case (Some t)
    note ft = findByPk_Some [OF Some]
    show ?thesis
    proof (cases "task_set_save fmt b t s")
      case None
      then show ?thesis using ok Some by (simp add: put_tasks_def)
    next
      case (Some p)
      obtain t1 s1 where p: "p = (t1, s1)" by (cases p)
      note sv = task_set_save_ok [OF ok conjunct1 [OF ft] Some [unfolded p]]
      have mem: "task_id t1 \<in> task_id ` set (task_rows s1)"
      proof -
        have "task_id t \<in> set (map task_id (task_rows s))" using ft by auto
        then have "task_id t1 \<in> set (map task_id (task_rows s1))" using sv by simp
        then show ?thesis by simp
      qed
      show ?thesis
      proof (cases "req_tags b")
        case None
        then show ?thesis
          using sv Some p \<open>Task_findByPk i s = Some t\<close> by (simp add: put_tasks_def)
      next
        case (Some ns)
        have "store_ok (attach_tags (task_id t1) ns (setTags_none (task_id t1) s1))"
          using attach_tags_ok [of "setTags_none (task_id t1) s1" "task_id t1" ns]
            setTags_none_ok [of s1 "task_id t1"] sv mem by simp
        then show ?thesis
          using Some p \<open>task_set_save fmt b t s = Some p\<close> \<open>Task_findByPk i s = Some t\<close>
          by (simp add: put_tasks_def)
      qed
    qed
  qed
qed

lemma put_tasks_replaces_tags:
  assumes ok: "store_ok s" and ex: "Task_findByPk i s = Some t"
    and ttl: "req_title b \<noteq> None" and tags: "req_tags b = Some ns"
  shows "set (tag_names (snd (put_tasks fmt i b s)) i) = set ns \<and>
         Task_findByPk i (snd (put_tasks fmt i b s)) \<noteq> None \<and>
         (\<exists>r. fst (put_tasks fmt i b s) = Task_json r)"
proof -
  note ft = findByPk_Some [OF ex]
  obtain t1 s1 where sv: "task_set_save fmt b t s = Some (t1, s1)"
    using ttl by (auto simp: task_set_save_def Let_def)
  note svok = task_set_save_ok [OF ok conjunct1 [OF ft] sv]
  have id1: "task_id t1 = i" using svok ft by simp
  have "i \<in> set (map task_id (task_rows s))" using ft by auto
  then have "i \<in> set (map task_id (task_rows s1))" using svok by simp
  then have mem: "i \<in> task_id ` set (task_rows s1)" by simp
  define s2 where "s2 = setTags_none i s1"
  have s2: "store_ok s2" "task_rows s2 = task_rows s1" "tag_names s2 i = []"
    using setTags_none_ok [of s1 i] svok by (simp_all add: s2_def)
  have mem2: "i \<in> task_id ` set (task_rows s2)" using mem s2 by simp
  note at = attach_tags_ok [OF s2(1) mem2, of ns]
  have res: "put_tasks fmt i b s = (Task_json t1, attach_tags i ns s2)"
    using ex sv tags id1 by (simp add: put_tasks_def s2_def)
  have "i \<in> task_id ` set (task_rows (attach_tags i ns s2))"
    using at mem2 by simp
  then show ?thesis
    using at s2 res by (simp add: findByPk_None)
qed

lemma has_tag_iff:
  "joined_tags (Some X) s i \<noteq> [] \<longleftrightarrow> X \<in> set (tag_names s i)"
  by (auto simp: tag_names_def joined_tags_def filter_empty_conv)

lemma Task_create_ok:
  assumes ok: "store_ok s" and cr: "Task_create fmt b s = Some (t, s1)"
  shows "store_ok s1 \<and> task_seq s < task_id t \<and> task_seq s1 = task_id t \<and>
         task_id ` set (task_rows s1) = insert (task_id t) (task_id ` set (task_rows s))"
proof -
  define K where "K = next_key (task_seq s) (map task_id (task_rows s))"
  have fresh: "\<forall>x \<in> set (task_rows s). task_id x < K"
    using next_key_fresh [of _ "map task_id (task_rows s)" "task_seq s"] by (auto simp: K_def)
  have gt: "task_seq s < K"
    by (simp add: K_def next_key_gt_seq)
  obtain x where x: "req_title b = Some x"
    using cr by (auto simp: Task_create_def split: option.splits)
  define w where "w = t\<lparr>due_date := map_option (DATEONLY_stringify fmt) (due_date t)\<rparr>"
  have t: "task_id t = K" and s1: "s1 = s\<lparr>task_rows := task_rows s @ [w], task_seq := K\<rparr>"
    using cr x by (auto simp: Task_create_def Let_def K_def w_def)
  have w: "task_id w = K"
    by (simp add: w_def t)
  have "store_ok s1"
    using ok fresh gt w unfolding s1 by (fastforce simp: store_ok_iff)
  then show ?thesis
    using gt t w s1 by auto
qed

lemma post_tasks_ok: "store_ok s \<Longrightarrow> store_ok (snd (post_tasks fmt b s))"
proof -
  assume ok: "store_ok s"
  show ?thesis
  proof (cases "Task_create fmt b s")
    case None
    then show ?thesis using ok by (simp add: post_tasks_def)
  next
    case (Some p)
    obtain t s1 where p: "p = (t, s1)" by (cases p)
    note cr = Task_create_ok [OF ok Some [unfolded p]]
    have mem: "task_id t \<in> task_id ` set (task_rows s1)" using cr by simp
    show ?thesis
      using Some p cr attach_tags_ok [OF conjunct1 [OF cr] mem]
      by (cases "req_tags b") (simp_all add: post_tasks_def)
  qed
qed

lemma Task_destroy_ok: "store_ok s \<Longrightarrow> store_ok (Task_destroy i s)"
  by (fastforce simp: store_ok_iff Task_destroy_def distinct_map_filter)

lemma run_command_ok: "store_ok s \<Longrightarrow> store_ok (run_command fmt c s)"
  by (cases c) (simp_all add: post_tasks_ok put_tasks_ok delete_tasks_def Task_destroy_ok)

lemma run_commands_ok: "store_ok s \<Longrightarrow> store_ok (run_commands fmt cs s)"
  by (induction cs arbitrary: s) (simp_all add: run_command_ok)

subsection \<open>Keys of tasks are not reused\<close>

lemma put_tasks_keys:
  assumes ok: "store_ok s"
  shows "map task_id (task_rows (snd (put_tasks fmt i b s))) = map task_id (task_rows s) \<and>
         task_seq (snd (put_tasks fmt i b s)) = task_seq s"
proof (cases "Task_findByPk i s")
  case None
  then show ?thesis by (simp add: put_tasks_def)
next
  case (Some t)
  note ft = findByPk_Some [OF Some]
  show ?thesis
  proof (cases "task_set_save fmt b t s")
    case None
    then show ?thesis using Some by (simp add: put_tasks_def)
  next
    case sv: (Some p)
    obtain t1 s1 where p: "p = (t1, s1)" by (cases p)
    note svok = task_set_save_ok [OF ok conjunct1 [OF ft] sv [unfolded p]]
    have "task_id t \<in> set (map task_id (task_rows s))" using ft by auto
    then have "task_id t1 \<in> set (map task_id (task_rows s1))" using svok by simp
    then have "task_id t1 \<in> task_id ` set (task_rows s1)" by simp
    then have mem: "task_id t1 \<in> task_id ` set (task_rows (setTags_none (task_id t1) s1))"
      by (simp add: setTags_none_def)
    have st: "store_ok (setTags_none (task_id t1) s1)"
      using setTags_none_ok [of s1 "task_id t1"] svok by simp
    show ?thesis
      using Some sv p svok attach_tags_ok [OF st mem] setTags_none_ok [of s1 "task_id t1"]
      by (cases "req_tags b") (simp_all add: put_tasks_def)
  qed
qed

lemma post_tasks_keys:
  assumes ok: "store_ok s" and i: "i \<le> task_seq s" "i \<notin> task_id ` set (task_rows s)"
  shows "i \<le> task_seq (snd (post_tasks fmt b s)) \<and> i \<notin> task_id ` set (task_rows (snd (post_tasks fmt b s)))"
proof (cases "Task_create fmt b s")
  case None
  then show ?thesis using i by (simp add: post_tasks_def)
next
  case (Some p)
  obtain t s1 where p: "p = (t, s1)" by (cases p)
  note cr = Task_create_ok [OF ok Some [unfolded p]]
  have mem: "task_id t \<in> task_id ` set (task_rows s1)" using cr by simp
  have "i \<le> task_seq s1 \<and> i \<notin> task_id ` set (task_rows s1)"
    using cr i by auto
  then show ?thesis
    using Some p attach_tags_ok [OF conjunct1 [OF cr] mem]
    by (cases "req_tags b") (simp_all add: post_tasks_def)
qed

lemma run_command_gone:
  assumes "store_ok s" "i \<le> task_seq s" "i \<notin> task_id ` set (task_rows s)"
  shows "i \<le> task_seq (run_command fmt c s) \<and> i \<notin> task_id ` set (task_rows (run_command fmt c s))"
proof (cases c)
  case (Create b)
  then show ?thesis using post_tasks_keys [OF assms] by simp
next
  case (Update j b)
  have "set (map task_id (task_rows (snd (put_tasks fmt j b s)))) = set (map task_id (task_rows s))"
    using put_tasks_keys [OF assms(1), of fmt j b] by simp
  then have "task_id ` set (task_rows (snd (put_tasks fmt j b s))) = task_id ` set (task_rows s)"
    by simp
  then show ?thesis
    using Update assms put_tasks_keys [OF assms(1), of fmt j b] by simp
next
  case (Delete j)
  then show ?thesis using assms by (auto simp: delete_tasks_def Task_destroy_def)
qed

lemma run_commands_gone:
  "store_ok s \<Longrightarrow> i \<le> task_seq s \<Longrightarrow> i \<notin> task_id ` set (task_rows s) \<Longrightarrow>
   i \<notin> task_id ` set (task_rows (run_commands fmt cs s))"
proof (induction cs arbitrary: s)
  case Nil
  then show ?case by simp
next
  case (Cons c cs)
  show ?case
    using Cons.IH [OF run_command_ok [OF Cons.prems(1)]] run_command_gone [OF Cons.prems]
    by simp
qed

lemma query_ids_subset: "task_id ` fst ` set (query q tg s) \<subseteq> task_id ` set (task_rows s)"
proof -
  have "set (map fst (query q tg s)) \<subseteq> set (task_rows s)"
    by (auto simp: query_rows)
  then show ?thesis by auto
qed

subsection \<open>Sorted lists of optional values\<close>

lemma sorted_nulls_first:
  fixes ds :: "'a::linorder option list"
  shows "sorted ds \<Longrightarrow> filter (\<lambda>d. d = None) ds @ filter (\<lambda>d. d \<noteq> None) ds = ds"
proof (induction ds)
  case Nil
  then show ?case by simp
next
  case (Cons x xs)
  show ?case
  proof (cases x)
    case None
    then show ?thesis using Cons by simp
  next
    case (Some a)
    have "\<forall>y \<in> set xs. y \<noteq> None"
    proof
      fix y assume "y \<in> set xs"
      then have "Some a \<le> y" using Cons.prems Some by auto
      then show "y \<noteq> None" by (cases y) auto
    qed
    then have "filter (\<lambda>d. d = None) xs = []" "filter (\<lambda>d. d \<noteq> None) xs = xs"
      by (simp_all add: filter_empty_conv filter_id_conv)
    then show ?thesis using Some by simp
  qed
qed

subsection \<open>Every store reached from the empty one satisfies the constraints\<close>

lemma reachable_store_ok: "store_ok (run_commands fmt cs empty_store)"
  by (rule run_commands_ok) (simp add: store_ok_def empty_store_def)

subsection \<open>The databases of the scenario\<close>

text \<open>Whatever the date library does, the create request of the scenario is answered
  with \<open>milk_task\<close> and leaves \<open>milk_store\<close>; and \<open>dated_store\<close> is what the three
  dated requests leave when the library writes the two dates as they are given.\<close>

lemma milk_store_created:
  "post_tasks fmt milk_body empty_store = (Task_json milk_task, milk_store)"
  by (simp add: post_tasks_def Task_create_def milk_body_def empty_store_def next_key_def
      Tag_findOrCreate_def addTag_def milk_task_def milk_store_def Let_def)

lemma dated_store_created:
  assumes "fmt ''2026-01-22'' = ''2026-01-22''" "fmt ''2026-01-21'' = ''2026-01-21''"
  shows "run_commands fmt
           [Create (dated_body (Some ''2026-01-22'')), Create (dated_body None),
            Create (dated_body (Some ''2026-01-21''))]
           empty_store = dated_store"
  using assms
  by (simp add: post_tasks_def Task_create_def dated_body_def empty_store_def next_key_def
      dated_task_def dated_store_def Let_def DATEONLY_sanitize_def DATEONLY_stringify_def)

text \<open>A create whose due date is the empty text, which is what the client's form sends
  when no date is picked, is answered with the empty text and stores what the library
  makes of it.\<close>

lemma empty_due_date_created:
  "post_tasks fmt (dated_body (Some [])) empty_store =
     (Task_json (dated_task 1 (Some [])),
      empty_store\<lparr>task_rows := [dated_task 1 (Some (fmt []))], task_seq := 1\<rparr>)"
  by (simp add: post_tasks_def Task_create_def dated_body_def empty_store_def next_key_def
      dated_task_def Let_def DATEONLY_sanitize_def DATEONLY_stringify_def)

lemma find_replaced:
  "find (\<lambda>r. task_id r = i) rows = Some t \<Longrightarrow> task_id w = i \<Longrightarrow>
   find (\<lambda>r. task_id r = i) (map (\<lambda>r. if task_id r = i then w else r) rows) = Some w"
  by (induction rows) (auto split: if_splits)

lemma attach_tags_task_rows: "task_rows (attach_tags i ns s) = task_rows s"
  by (induction ns arbitrary: s)
    (auto simp: Tag_findOrCreate_def addTag_def Let_def split: option.splits)

section \<open>What a query returns\<close>

lemma unfiltered_query_tags:
  "(t, ns) \<in> set (query q None s) \<Longrightarrow> ns = tag_names s (task_id t)"
  by (auto simp: query_eq includeClause_def truthy_def tag_names_def)

lemma filtered_query_tags:
  assumes "X \<noteq> []" "(t, ns) \<in> set (query q (Some X) s)"
  shows "ns \<noteq> [] \<and> set ns = {X}"
proof -
  have ns: "ns = map name (joined_tags (Some X) s (task_id t))"
    and ne: "joined_tags (Some X) s (task_id t) \<noteq> []"
    using assms by (auto simp: query_eq includeClause_def truthy_def)
  have "set ns \<subseteq> {X}"
    unfolding ns by (auto simp: joined_tags_def)
  moreover have "ns \<noteq> []"
    using ne ns by simp
  ultimately show ?thesis
    by (cases ns) auto
qed

text \<open>
  C1. The claim: a query with a tag filter \<open>X\<close> returns each task with the full list of
  its tag names; after creating the task of the scenario with the tags shopping and
  errand, the query with the tag shopping returns it with both names.

  The code puts the filter on the include (\<open>includeClause[0].where = { name: tag }\<close>), so
  the join loads only the tags that satisfy it: the query with the tag shopping
  returns the task with the single name shopping, while the query without a tag
  filter returns it with both names, which are the names associated in the store.
\<close>

theorem tag_filter_loads_only_matching_tag:
  "query None (Some ''shopping'') milk_store = [(milk_task, [''shopping''])] \<and>
   query None None milk_store = [(milk_task, [''shopping'', ''errand''])] \<and>
   tag_names milk_store 1 = [''shopping'', ''errand'']"
  by code_simp

text \<open>
  A consequence in the client: its status toggle sends back the tag list the last query
  showed, and the update replaces the tag set with it. Toggled from a list filtered by
  shopping, the task of the scenario loses its tag errand.
\<close>

lemma toggle_under_tag_filter_drops_tags:
  "tag_names (snd (toggleStatus fmt (hd (query None (Some ''shopping'') milk_store)) milk_store)) 1 =
     [''shopping'']"
  by code_simp

section \<open>Validation of the title\<close>

text \<open>
  C2, as the specification states it, fails: a create whose title is the empty string
  is answered with the created task, and the row is stored with the empty title.
\<close>

theorem create_accepts_empty_title:
  "\<forall>fmt.
     fst (post_tasks fmt (milk_body\<lparr>req_title := Some ''''\<rparr>) empty_store) =
       Task_json (milk_task\<lparr>title := ''''\<rparr>) \<and>
     map title (task_rows (snd (post_tasks fmt (milk_body\<lparr>req_title := Some ''''\<rparr>) empty_store))) =
       ['''']"
  by (simp add: post_tasks_def Task_create_def milk_body_def empty_store_def milk_task_def
      next_key_def Tag_findOrCreate_def addTag_def Let_def)

text \<open>
  C2, amended. The create operation fails, with the reply 500 "Create failed", when and
  only when the title is null or missing, and it then leaves the store as it was. With
  a title \<open>x\<close>, empty or not, the create is answered with a task titled \<open>x\<close> and adds
  one row, of the same key and titled \<open>x\<close>, to the table; an update of an existing
  task is answered with the task titled \<open>x\<close>, and the task then found under the key
  is titled \<open>x\<close>.
\<close>

theorem create_fails_iff_title_null:
  "(fst (post_tasks fmt b s) = Error_json 500 ''Create failed'' \<longleftrightarrow> req_title b = None) \<and>
   (req_title b = None \<longrightarrow> snd (post_tasks fmt b s) = s) \<and>
   (\<forall>x. req_title b = Some x \<longrightarrow>
      (\<exists>r w. fst (post_tasks fmt b s) = Task_json r \<and> title r = x \<and>
             task_rows (snd (post_tasks fmt b s)) = task_rows s @ [w] \<and>
             task_id w = task_id r \<and> title w = x)) \<and>
   (\<forall>x i t. req_title b = Some x \<and> Task_findByPk i s = Some t \<longrightarrow>
      (\<exists>r w. fst (put_tasks fmt i b s) = Task_json r \<and> title r = x \<and>
             Task_findByPk i (snd (put_tasks fmt i b s)) = Some w \<and> title w = x))"
proof -
  have create: "(fst (post_tasks fmt b s) = Error_json 500 ''Create failed'' \<longleftrightarrow> req_title b = None) \<and>
      (req_title b = None \<longrightarrow> snd (post_tasks fmt b s) = s) \<and>
      (\<forall>x. req_title b = Some x \<longrightarrow>
         (\<exists>r w. fst (post_tasks fmt b s) = Task_json r \<and> title r = x \<and>
                task_rows (snd (post_tasks fmt b s)) = task_rows s @ [w] \<and>
                task_id w = task_id r \<and> title w = x))"
    by (cases "req_title b"; cases "req_tags b")
      (simp_all add: post_tasks_def Task_create_def Let_def attach_tags_task_rows)
  have update: "\<exists>r w. fst (put_tasks fmt i b s) = Task_json r \<and> title r = x \<and>
        Task_findByPk i (snd (put_tasks fmt i b s)) = Some w \<and> title w = x"
    if x: "req_title b = Some x" and t: "Task_findByPk i s = Some t" for x i t
  proof -
    have i: "task_id t = i"
      using findByPk_Some [OF t] by simp
    define w where "w = t\<lparr>title := x, description := req_description b, status := req_status b,
        due_date :=
          (if map_option (DATEONLY_sanitize fmt) (req_due_date b) = due_date t then due_date t
           else map_option (DATEONLY_stringify fmt)
                  (map_option (DATEONLY_sanitize fmt) (req_due_date b))),
        location := req_location b\<rparr>"
    have w: "task_id w = i" "title w = x"
      by (simp_all add: w_def i)
    have found: "find (\<lambda>r. task_id r = i) (map (\<lambda>r. if task_id r = i then w else r) (task_rows s)) =
        Some w"
      using find_replaced [OF t [unfolded Task_findByPk_def] w(1)] .
    have sv: "task_set_save fmt b t s =
        Some (t\<lparr>title := x, description := req_description b, status := req_status b,
                due_date := map_option (DATEONLY_sanitize fmt) (req_due_date b),
                location := req_location b\<rparr>,
              s\<lparr>task_rows := map (\<lambda>r. if task_id r = i then w else r) (task_rows s)\<rparr>)"
      using x i by (simp add: task_set_save_def Let_def w_def)
    show ?thesis
      using t i w found
      by (cases "req_tags b")
        (simp_all add: put_tasks_def sv Task_findByPk_def attach_tags_task_rows setTags_none_def)
  qed
  show ?thesis
    using create update by blast
qed

theorem create_fails_iff_title_null_witness:
  "\<forall>fmt.
     req_title (milk_body\<lparr>req_title := None\<rparr>) = None \<and>
     post_tasks fmt (milk_body\<lparr>req_title := None\<rparr>) empty_store =
       (Error_json 500 ''Create failed'', empty_store) \<and>
     req_title milk_body = Some ''Buy milk'' \<and>
     fst (post_tasks fmt milk_body empty_store) = Task_json milk_task \<and>
     task_rows (snd (post_tasks fmt milk_body empty_store)) = [milk_task] \<and>
     Task_findByPk 1 milk_store = Some milk_task \<and>
     (\<exists>r w. fst (put_tasks fmt 1 milk_body milk_store) = Task_json r \<and> title r = ''Buy milk'' \<and>
            Task_findByPk 1 (snd (put_tasks fmt 1 milk_body milk_store)) = Some w \<and>
            title w = ''Buy milk'')"
proof
  fix fmt :: "string \<Rightarrow> string"
  have n: "req_title (milk_body\<lparr>req_title := None\<rparr>) = None"
    by simp
  have m: "req_title milk_body = Some ''Buy milk''"
    by (simp add: milk_body_def)
  have f: "Task_findByPk 1 milk_store = Some milk_task"
    by code_simp
  have c: "fst (post_tasks fmt milk_body empty_store) = Task_json milk_task"
    "task_rows (snd (post_tasks fmt milk_body empty_store)) = [milk_task]"
    by (simp_all add: milk_store_created milk_store_def)
  have u: "\<exists>r w. fst (put_tasks fmt 1 milk_body milk_store) = Task_json r \<and> title r = ''Buy milk'' \<and>
      Task_findByPk 1 (snd (put_tasks fmt 1 milk_body milk_store)) = Some w \<and> title w = ''Buy milk''"
    using create_fails_iff_title_null [of fmt milk_body milk_store] m f by blast
  show "req_title (milk_body\<lparr>req_title := None\<rparr>) = None \<and>
     post_tasks fmt (milk_body\<lparr>req_title := None\<rparr>) empty_store =
       (Error_json 500 ''Create failed'', empty_store) \<and>
     req_title milk_body = Some ''Buy milk'' \<and>
     fst (post_tasks fmt milk_body empty_store) = Task_json milk_task \<and>
     task_rows (snd (post_tasks fmt milk_body empty_store)) = [milk_task] \<and>
     Task_findByPk 1 milk_store = Some milk_task \<and>
     (\<exists>r w. fst (put_tasks fmt 1 milk_body milk_store) = Task_json r \<and> title r = ''Buy milk'' \<and>
            Task_findByPk 1 (snd (put_tasks fmt 1 milk_body milk_store)) = Some w \<and>
            title w = ''Buy milk'')"
    using create_fails_iff_title_null [of fmt "milk_body\<lparr>req_title := None\<rparr>" empty_store] n m f c u
    by (simp add: prod_eq_iff)
qed

section \<open>The free-text filter\<close>

text \<open>
  C3, as the specification states it, fails: the term is copied into the \<open>LIKE\<close>
  pattern as it is, so an underscore in it stands for any character. The term \<open>_\<close>
  selects the task of the scenario, although no field of the task contains an
  underscore.
\<close>

theorem underscore_term_matches_without_substring:
  "map fst (query (Some ''_'') None milk_store) = [milk_task] \<and> \<not> text_matches ''_'' milk_task"
  by code_simp

text \<open>
  C3, amended. For every free-text term \<open>q\<close> that contains neither \<open>%\<close> nor \<open>_\<close>, the
  query without a tag filter returns exactly the tasks for which \<open>q\<close> is a
  case-insensitive substring (the case of the letters A to Z being ignored) of the
  title, of the description or of the location: the rows returned are those rows of
  the table, each as often as the table holds it.
\<close>

theorem query_text_substring:
  "wildcard_free q \<Longrightarrow>
   mset (map fst (query (Some q) None s)) = mset (filter (text_matches q) (task_rows s))"
  by (simp add: query_rows includeClause_def truthy_def where_text_matches)

theorem query_text_substring_witness:
  "wildcard_free ''MILK'' \<and> mset (map fst (query (Some ''MILK'') None milk_store)) = {#milk_task#} \<and>
   wildcard_free ''bread'' \<and> mset (map fst (query (Some ''bread'') None milk_store)) = {#}"
proof -
  have w: "wildcard_free ''MILK''" "wildcard_free ''bread''"
    by code_simp+
  have r: "filter (text_matches ''MILK'') (task_rows milk_store) = [milk_task]"
    "filter (text_matches ''bread'') (task_rows milk_store) = []"
    by code_simp+
  show ?thesis
    using query_text_substring [OF w(1), of milk_store] query_text_substring [OF w(2), of milk_store]
      w r
    by simp
qed

section \<open>The tag filter\<close>

text \<open>
  C4, as the specification states it, fails at the empty filter: \<open>if (tag)\<close> takes the
  empty string for no filter, so the query returns the task of the scenario, none of
  whose tags has the empty name.
\<close>

theorem empty_tag_filter_selects_all:
  "map fst (query None (Some '''') milk_store) = [milk_task] \<and>
   '''' \<notin> set (tag_names milk_store (task_id milk_task))"
  by code_simp

text \<open>
  C4, amended. For every non-empty tag filter \<open>X\<close>, the query returns exactly the tasks
  that satisfy the free-text constraint, if there is one, and have at least one
  associated tag whose name equals \<open>X\<close>: the rows returned are those rows of the
  table, each as often as the table holds it. The names are compared for equality,
  not for containment.
\<close>

theorem query_tag_exact:
  "X \<noteq> [] \<Longrightarrow>
   mset (map fst (query q (Some X) s)) =
     mset (filter (\<lambda>t. text_constraint q t \<and> X \<in> set (tag_names s (task_id t))) (task_rows s))"
  by (simp add: query_rows includeClause_def truthy_def has_tag_iff text_constraint_def)

theorem query_tag_exact_witness:
  "''errand'' \<noteq> [] \<and> mset (map fst (query None (Some ''errand'') milk_store)) = {#milk_task#} \<and>
   ''err'' \<noteq> [] \<and> mset (map fst (query None (Some ''err'') milk_store)) = {#}"
proof -
  have r: "filter (\<lambda>t. text_constraint None t \<and> ''errand'' \<in> set (tag_names milk_store (task_id t)))
          (task_rows milk_store) = [milk_task]"
    "filter (\<lambda>t. text_constraint None t \<and> ''err'' \<in> set (tag_names milk_store (task_id t)))
          (task_rows milk_store) = []"
    by code_simp+
  show ?thesis
    using query_tag_exact [of "''errand''" None milk_store] query_tag_exact [of "''err''" None milk_store] r
    by simp
qed

section \<open>Replacing the tag set\<close>

text \<open>
  C5. In a store that satisfies the schema's constraints, let \<open>i\<close> name an existing
  task, and let two update requests that carry a title give the tag lists \<open>ns1\<close> and
  then \<open>ns2\<close>. After the two updates the names of the tags associated with the task
  are exactly those of \<open>ns2\<close>, each once: for the lists [A, B] and then [B, C],
  exactly B and C.
\<close>

theorem update_replaces_tag_set:
  assumes "store_ok s" "Task_findByPk i s \<noteq> None"
    and "req_title b1 \<noteq> None" "req_tags b1 = Some ns1"
    and "req_title b2 \<noteq> None" "req_tags b2 = Some ns2"
  shows "set (tag_names (snd (put_tasks fmt i b2 (snd (put_tasks fmt i b1 s)))) i) = set ns2 \<and>
         distinct (tag_names (snd (put_tasks fmt i b2 (snd (put_tasks fmt i b1 s)))) i)"
proof -
  obtain t where t: "Task_findByPk i s = Some t"
    using assms(2) by auto
  note first = put_tasks_replaces_tags [OF assms(1) t assms(3,4)]
  then obtain t' where t': "Task_findByPk i (snd (put_tasks fmt i b1 s)) = Some t'"
    by auto
  have "store_ok (snd (put_tasks fmt i b2 (snd (put_tasks fmt i b1 s))))"
    by (intro put_tasks_ok assms(1))
  then show ?thesis
    using put_tasks_replaces_tags [OF put_tasks_ok [OF assms(1)] t' assms(5,6)]
    by (simp add: tag_names_distinct)
qed

theorem update_replaces_tag_set_witness:
  "\<forall>fmt.
     store_ok milk_store \<and> Task_findByPk 1 milk_store \<noteq> None \<and>
     tag_names milk_store 1 = [''shopping'', ''errand''] \<and>
     set (tag_names
            (snd (put_tasks fmt 1 (milk_body\<lparr>req_tags := Some [''B'', ''C'']\<rparr>)
               (snd (put_tasks fmt 1 (milk_body\<lparr>req_tags := Some [''A'', ''B'']\<rparr>) milk_store)))) 1) =
       {''B'', ''C''}"
proof
  fix fmt :: "string \<Rightarrow> string"
  have ok: "store_ok milk_store"
    by code_simp
  have ex: "Task_findByPk 1 milk_store \<noteq> None"
    by code_simp
  have t: "req_title (milk_body\<lparr>req_tags := Some [''A'', ''B'']\<rparr>) \<noteq> None"
    "req_title (milk_body\<lparr>req_tags := Some [''B'', ''C'']\<rparr>) \<noteq> None"
    by (simp_all add: milk_body_def)
  have before: "tag_names milk_store 1 = [''shopping'', ''errand'']"
    by code_simp
  show "store_ok milk_store \<and> Task_findByPk 1 milk_store \<noteq> None \<and>
     tag_names milk_store 1 = [''shopping'', ''errand''] \<and>
     set (tag_names
            (snd (put_tasks fmt 1 (milk_body\<lparr>req_tags := Some [''B'', ''C'']\<rparr>)
               (snd (put_tasks fmt 1 (milk_body\<lparr>req_tags := Some [''A'', ''B'']\<rparr>) milk_store)))) 1) =
       {''B'', ''C''}"
    using update_replaces_tag_set [OF ok ex t(1) _ t(2), of "[''A'', ''B'']" "[''B'', ''C'']" fmt]
      ok ex before
    by simp
qed

section \<open>Updating a task that does not exist\<close>

text \<open>
  C6. When the id of an update request names no task of the store, the reply is 404
  "Not found" and the store that results is the store as it was: no task row, no tag
  row and no association has changed.
\<close>

theorem update_unknown_id_not_found:
  "Task_findByPk i s = None \<Longrightarrow> put_tasks fmt i b s = (Error_json 404 ''Not found'', s)"
  by (simp add: put_tasks_def)

theorem update_unknown_id_not_found_witness:
  "\<forall>fmt.
     Task_findByPk 2 milk_store = None \<and>
     put_tasks fmt 2 (milk_body\<lparr>req_tags := Some [''new'']\<rparr>) milk_store =
       (Error_json 404 ''Not found'', milk_store)"
proof
  fix fmt :: "string \<Rightarrow> string"
  have n: "Task_findByPk 2 milk_store = None"
    by code_simp
  show "Task_findByPk 2 milk_store = None \<and>
     put_tasks fmt 2 (milk_body\<lparr>req_tags := Some [''new'']\<rparr>) milk_store =
       (Error_json 404 ''Not found'', milk_store)"
    using update_unknown_id_not_found [OF n] n by simp
qed

section \<open>Deleting\<close>

text \<open>
  C7, as the specification states it, fails for an id that has not been handed out yet.
  In the database of the scenario, whose only task has the key 1, the delete of the id
  2 is answered with "Deleted"; the next create is given the key 2, and the query
  after it returns a task with the id 2.
\<close>

theorem deleted_unissued_id_is_handed_out:
  "\<forall>fmt.
     fst (delete_tasks 2 milk_store) = Message_json ''Deleted'' \<and>
     map (\<lambda>r. task_id (fst r))
       (query None None (run_commands fmt [Create milk_body] (snd (delete_tasks 2 milk_store)))) =
       [1, 2]"
proof
  fix fmt :: "string \<Rightarrow> string"
  have d: "snd (delete_tasks 2 milk_store) = milk_store"
    by code_simp
  have c: "snd (post_tasks fmt milk_body milk_store) =
      milk_store\<lparr>task_rows := [milk_task, milk_task\<lparr>task_id := 2\<rparr>], task_seq := 2,
        TaskTags := [(1, 1), (1, 2), (2, 1), (2, 2)]\<rparr>"
    by (simp add: post_tasks_def Task_create_def milk_body_def milk_store_def milk_task_def
        next_key_def Tag_findOrCreate_def addTag_def Let_def)
  have q: "map (\<lambda>r. task_id (fst r))
      (query None None
        (milk_store\<lparr>task_rows := [milk_task, milk_task\<lparr>task_id := 2\<rparr>], task_seq := 2,
           TaskTags := [(1, 1), (1, 2), (2, 1), (2, 2)]\<rparr>)) = [1, 2]"
    by code_simp
  show "fst (delete_tasks 2 milk_store) = Message_json ''Deleted'' \<and>
     map (\<lambda>r. task_id (fst r))
       (query None None (run_commands fmt [Create milk_body] (snd (delete_tasks 2 milk_store)))) =
       [1, 2]"
    using d c q by (simp add: delete_tasks_def)
qed

text \<open>
  C7, amended. For every id, whether or not it names a task, the delete operation
  answers with the message "Deleted", never with an error, and no query on the store
  it leaves, whatever its filters, returns a task with that id. If moreover the store
  satisfies the schema's constraints and the id is not larger than the key counter of
  the tasks, so that it has been handed out already, then no query returns a task with
  that id after any later sequence of commands either, since a key is never handed out
  twice.
\<close>

theorem delete_confirms_and_removes:
  "fst (delete_tasks i s) = Message_json ''Deleted'' \<and>
   i \<notin> set (map (\<lambda>r. task_id (fst r)) (query q tg (snd (delete_tasks i s)))) \<and>
   (store_ok s \<and> i \<le> task_seq s \<longrightarrow>
      i \<notin> set (map (\<lambda>r. task_id (fst r))
                  (query q tg (run_commands fmt cs (snd (delete_tasks i s))))))"
proof -
  have gone: "i \<notin> task_id ` set (task_rows (Task_destroy i s))"
    by (auto simp: Task_destroy_def)
  have now: "i \<notin> set (map (\<lambda>r. task_id (fst r)) (query q tg (snd (delete_tasks i s))))"
    using query_ids_subset [of q tg "Task_destroy i s"] gone
    by (auto simp: delete_tasks_def)
  have later: "i \<notin> set (map (\<lambda>r. task_id (fst r))
      (query q tg (run_commands fmt cs (snd (delete_tasks i s)))))"
    if ok: "store_ok s" and le: "i \<le> task_seq s"
  proof -
    have d: "store_ok (Task_destroy i s)" "i \<le> task_seq (Task_destroy i s)"
      using ok le by (simp_all add: Task_destroy_ok) (simp add: Task_destroy_def)
    have "i \<notin> task_id ` set (task_rows (run_commands fmt cs (Task_destroy i s)))"
      using run_commands_gone [OF d gone] .
    then show ?thesis
      using query_ids_subset [of q tg "run_commands fmt cs (Task_destroy i s)"]
      by (auto simp: delete_tasks_def)
  qed
  show ?thesis
    using now later by (simp add: delete_tasks_def)
qed

theorem delete_confirms_and_removes_witness:
  "\<forall>fmt.
     fst (delete_tasks 1 milk_store) = Message_json ''Deleted'' \<and>
     query None None (snd (delete_tasks 1 milk_store)) = [] \<and>
     fst (delete_tasks 7 milk_store) = Message_json ''Deleted'' \<and>
     7 \<notin> set (map (\<lambda>r. task_id (fst r)) (query None None (snd (delete_tasks 7 milk_store)))) \<and>
     store_ok milk_store \<and> 1 \<le> task_seq milk_store \<and>
     1 \<notin> set (map (\<lambda>r. task_id (fst r))
                 (query None None
                    (run_commands fmt [Create milk_body, Update 2 milk_body, Delete 5]
                       (snd (delete_tasks 1 milk_store)))))"
proof
  fix fmt :: "string \<Rightarrow> string"
  have e: "query None None (snd (delete_tasks 1 milk_store)) = []"
    by code_simp
  have ok: "store_ok milk_store" "1 \<le> task_seq milk_store"
    by code_simp+
  show "fst (delete_tasks 1 milk_store) = Message_json ''Deleted'' \<and>
     query None None (snd (delete_tasks 1 milk_store)) = [] \<and>
     fst (delete_tasks 7 milk_store) = Message_json ''Deleted'' \<and>
     7 \<notin> set (map (\<lambda>r. task_id (fst r)) (query None None (snd (delete_tasks 7 milk_store)))) \<and>
     store_ok milk_store \<and> 1 \<le> task_seq milk_store \<and>
     1 \<notin> set (map (\<lambda>r. task_id (fst r))
                 (query None None
                    (run_commands fmt [Create milk_body, Update 2 milk_body, Delete 5]
                       (snd (delete_tasks 1 milk_store)))))"
    using delete_confirms_and_removes [of 1 milk_store None None fmt
        "[Create milk_body, Update 2 milk_body, Delete 5]"]
      delete_confirms_and_removes [of 7 milk_store None None fmt "[]"] e ok
    by simp
qed

section \<open>Round trips to the store\<close>



section \<open>The order of the result\<close>

text \<open>
  C9. With or without filters, the due dates of the returned tasks, read in the order
  of the list, are ascending, where no due date counts as earlier than every date and
  two dates compare as their texts do, character by character. So the one rule for
  tasks with no due date is that they come first: the list of due dates is its nulls
  followed by its dates.
\<close>

theorem query_sorted_by_due_date:
  "sorted (map (\<lambda>r. due_date (fst r)) (query q tg s)) \<and>
   filter (\<lambda>d. d = None) (map (\<lambda>r. due_date (fst r)) (query q tg s)) @
   filter (\<lambda>d. d \<noteq> None) (map (\<lambda>r. due_date (fst r)) (query q tg s)) =
     map (\<lambda>r. due_date (fst r)) (query q tg s)"
proof -
  have "map (\<lambda>r. due_date (fst r)) (query q tg s) = map due_date (map fst (query q tg s))"
    by (simp add: o_def)
  then have "sorted (map (\<lambda>r. due_date (fst r)) (query q tg s))"
    by (simp only: query_rows sorted_sort_key)
  then show ?thesis
    using sorted_nulls_first by blast
qed

theorem query_sorted_by_due_date_witness:
  "map due_date (task_rows dated_store) = [Some ''2026-01-22'', None, Some ''2026-01-21''] \<and>
   map (\<lambda>r. due_date (fst r)) (query None None dated_store) =
     [None, Some ''2026-01-21'', Some ''2026-01-22''] \<and>
   sorted [None, Some ''2026-01-21'', Some ''2026-01-22'']"
proof -
  have e: "map due_date (task_rows dated_store) = [Some ''2026-01-22'', None, Some ''2026-01-21'']"
    "map (\<lambda>r. due_date (fst r)) (query None None dated_store) =
       [None, Some ''2026-01-21'', Some ''2026-01-22'']"
    by code_simp+
  show ?thesis
    using query_sorted_by_due_date [of None None dated_store] e by simp
qed

section \<open>Updating without a tag list\<close>

text \<open>
  C10, as stated, fails for a request without a title: the update of the task of the
  scenario with a null title, a new description and no tag list is answered with 500
  "Update failed", and the store, the description of the task included, is as it was.
\<close>

theorem update_without_title_overwrites_nothing:
  "\<forall>fmt.
     Task_findByPk 1 milk_store = Some milk_task \<and>
     put_tasks fmt 1
       (milk_body\<lparr>req_title := None, req_description := Some ''two litres'', req_tags := None\<rparr>)
       milk_store =
       (Error_json 500 ''Update failed'', milk_store)"
proof
  fix fmt :: "string \<Rightarrow> string"
  have f: "Task_findByPk 1 milk_store = Some milk_task"
    by code_simp
  show "Task_findByPk 1 milk_store = Some milk_task \<and>
     put_tasks fmt 1
       (milk_body\<lparr>req_title := None, req_description := Some ''two litres'', req_tags := None\<rparr>)
       milk_store =
       (Error_json 500 ''Update failed'', milk_store)"
    using f by (simp add: put_tasks_def task_set_save_def)
qed

text \<open>
  C10, amended. For every update request that addresses an existing task and whose
  tags field is missing or not an array, the tag rows and the associations of the
  store are left as they were. If the request carries no title, the reply is 500
  "Update failed" and the store is unchanged. If it carries one, the title, the
  description, the status and the location of the task are overwritten by those of the
  request, in the reply and in the task's row of the table. Its due date is
  overwritten too, by what the date column makes of the one of the request: null
  stays null; a text is the sanitized one in the reply, and in the row the sanitized
  one as it is written, unless the sanitized one is the text the row holds already.
\<close>

theorem update_without_tags_keeps_associations:
  assumes "Task_findByPk i s = Some t" "req_tags b = None"
  shows "TaskTags (snd (put_tasks fmt i b s)) = TaskTags s \<and>
         tag_rows (snd (put_tasks fmt i b s)) = tag_rows s \<and>
         (req_title b = None \<longrightarrow> put_tasks fmt i b s = (Error_json 500 ''Update failed'', s)) \<and>
         (\<forall>x. req_title b = Some x \<longrightarrow>
            fst (put_tasks fmt i b s) =
              Task_json (t\<lparr>title := x, description := req_description b, status := req_status b,
                          due_date := map_option (DATEONLY_sanitize fmt) (req_due_date b),
                          location := req_location b\<rparr>) \<and>
            task_rows (snd (put_tasks fmt i b s)) =
              map (\<lambda>r. if task_id r = i
                        then t\<lparr>title := x, description := req_description b, status := req_status b,
                               due_date :=
                                 (if map_option (DATEONLY_sanitize fmt) (req_due_date b) = due_date t
                                  then due_date t
                                  else map_option (DATEONLY_stringify fmt)
                                         (map_option (DATEONLY_sanitize fmt) (req_due_date b))),
                               location := req_location b\<rparr>
                        else r) (task_rows s))"
  using assms findByPk_Some [OF assms(1)]
  by (cases "req_title b") (auto simp: put_tasks_def task_set_save_def Let_def)

theorem update_without_tags_keeps_associations_witness:
  "\<forall>fmt.
     Task_findByPk 1 milk_store = Some milk_task \<and>
     put_tasks fmt 1 (milk_body\<lparr>req_title := None, req_tags := None\<rparr>) milk_store =
       (Error_json 500 ''Update failed'', milk_store) \<and>
     TaskTags (snd (put_tasks fmt 1
        \<lparr>req_title = Some ''Buy oat milk'', req_description = Some ''two litres'',
         req_due_date = Some ''2026-01-21'', req_location = Some ''market'',
         req_status = Some ''completed'', req_tags = None\<rparr> milk_store)) = [(1, 1), (1, 2)] \<and>
     task_rows (snd (put_tasks fmt 1
        \<lparr>req_title = Some ''Buy oat milk'', req_description = Some ''two litres'',
         req_due_date = Some ''2026-01-21'', req_location = Some ''market'',
         req_status = Some ''completed'', req_tags = None\<rparr> milk_store)) =
       [\<lparr>task_id = 1, title = ''Buy oat milk'', description = Some ''two litres'',
         due_date = Some (fmt (fmt ''2026-01-21'')), location = Some ''market'',
         status = Some ''completed''\<rparr>]"
proof
  fix fmt :: "string \<Rightarrow> string"
  have f: "Task_findByPk 1 milk_store = Some milk_task"
    by code_simp
  have s: "TaskTags milk_store = [(1, 1), (1, 2)]" "task_rows milk_store = [milk_task]"
    by code_simp+
  show "Task_findByPk 1 milk_store = Some milk_task \<and>
     put_tasks fmt 1 (milk_body\<lparr>req_title := None, req_tags := None\<rparr>) milk_store =
       (Error_json 500 ''Update failed'', milk_store) \<and>
     TaskTags (snd (put_tasks fmt 1
        \<lparr>req_title = Some ''Buy oat milk'', req_description = Some ''two litres'',
         req_due_date = Some ''2026-01-21'', req_location = Some ''market'',
         req_status = Some ''completed'', req_tags = None\<rparr> milk_store)) = [(1, 1), (1, 2)] \<and>
     task_rows (snd (put_tasks fmt 1
        \<lparr>req_title = Some ''Buy oat milk'', req_description = Some ''two litres'',
         req_due_date = Some ''2026-01-21'', req_location = Some ''market'',
         req_status = Some ''completed'', req_tags = None\<rparr> milk_store)) =
       [\<lparr>task_id = 1, title = ''Buy oat milk'', description = Some ''two litres'',
         due_date = Some (fmt (fmt ''2026-01-21'')), location = Some ''market'',
         status = Some ''completed''\<rparr>]"
    using update_without_tags_keeps_associations [OF f,
        of "\<lparr>req_title = Some ''Buy oat milk'', req_description = Some ''two litres'',
             req_due_date = Some ''2026-01-21'', req_location = Some ''market'',
             req_status = Some ''completed'', req_tags = None\<rparr>" fmt]
      update_without_tags_keeps_associations [OF f,
        of "milk_body\<lparr>req_title := None, req_tags := None\<rparr>" fmt] f s
    by (simp add: milk_task_def DATEONLY_sanitize_def DATEONLY_stringify_def)
qed

end
